theory Spec2Isabelle
  imports Complex_Main
begin

section \<open>Data model of the drag list (src/index.tsx)\<close>

text \<open>
  The component keeps its drag session in React refs (\<^verbatim>\<open>activeKey\<close>, \<^verbatim>\<open>activeIndex\<close>,
  \<^verbatim>\<open>panIndex\<close>, \<^verbatim>\<open>reorderingRef\<close>, \<^verbatim>\<open>panGrantedRef\<close>, ...) that its event handlers read
  and write. The model puts every ref in one record and makes each handler a function
  from the record to the updated record and the list of calls it makes on its
  collaborators.

  JavaScript numbers that measure pixels are modelled as \<^typ>\<open>real\<close>: sums and
  halvings are exact here, NaN and the infinities are left out. Indices are \<^typ>\<open>int\<close>
  because the source uses \<^verbatim>\<open>-1\<close> for "no index".
\<close>

type_synonym key = string

record PosExtent =
  pos :: real
  extent :: real

type_synonym LayoutCache = "key \<rightharpoonup> PosExtent"

record ExtraData =
  extraActiveKey :: "key option"
  extraPanIndex :: int

text \<open>The gesture state a pan handler receives (the fields the source reads).\<close>

record gestate =
  x0 :: real
  y0 :: real
  dx :: real
  dy :: real

text \<open>
  What the handlers close over. \<^verbatim>\<open>PanResponder.create\<close> is kept in a \<^verbatim>\<open>useRef\<close>, so the
  pan handlers see the props of the first render. An optional callback is a flag:
  \<^verbatim>\<open>onDragEnd?.()\<close> calls it only when it was supplied. \<open>flatRefSet\<close> and
  \<open>flatWrapRefSet\<close> say whether \<^verbatim>\<open>flatRef.current\<close> and \<^verbatim>\<open>flatWrapRef.current\<close> are
  non-null.
\<close>

record 'a props =
  horizontal :: bool
  keyExtractor :: "'a \<Rightarrow> nat \<Rightarrow> key"
  onDragBeginSet :: bool
  onDragEndSet :: bool
  hoverRefSet :: bool
  flatRefSet :: bool
  flatWrapRefSet :: bool

record 'a dragState =
  activeKey :: "key option"
  activeIndex :: int
  reorderingRef :: bool
  panIndex :: int
  extra :: ExtraData
  layouts :: LayoutCache
  dataRef :: "'a list"
  panGrantedRef :: bool
  reorderRefSet :: bool
  flatWrapLayout :: PosExtent
  scrollPos :: real
  pan :: real

text \<open>The calls a handler makes on the application and on the list.\<close>

datatype effect =
    CallOnDragBegin
  | CallOnDragEnd
  | CallOnHoverChanged int
  | CallOnReordered int int
  | ScrollToOffset real
  | MeasureForGrant
  | MeasureForLayout

text \<open>How the awaited reorder handler settles, and how an async handler completes.\<close>

datatype settlement = Fulfilled | Rejected

datatype completion = Returns | Throws

text \<open>
  JavaScript truthiness of \<^verbatim>\<open>string | null\<close>: \<^verbatim>\<open>null\<close> and the empty string are falsy.
\<close>

definition truthy :: "key option \<Rightarrow> bool" where
  "truthy k = (case k of None \<Rightarrow> False | Some str \<Rightarrow> str \<noteq> [])"

text \<open>The refs as the first render creates them.\<close>

definition initialExtra :: ExtraData where
  "initialExtra = \<lparr>extraActiveKey = None, extraPanIndex = -1\<rparr>"

definition initialState :: "'a list \<Rightarrow> bool \<Rightarrow> 'a dragState" where
  "initialState d r =
     \<lparr>activeKey = None, activeIndex = -1, reorderingRef = False, panIndex = -1,
      extra = initialExtra, layouts = Map.empty, dataRef = d, panGrantedRef = False,
      reorderRefSet = r, flatWrapLayout = \<lparr>pos = 0, extent = 1\<rparr>, scrollPos = 0,
      pan = 0\<rparr>"

section \<open>Index resolution and auto-scroll (onPanResponderMove)\<close>

text \<open>
  The scan of \<^verbatim>\<open>onPanResponderMove\<close>:
  \<^verbatim>\<open>while (curIndex < data.length && layouts.hasOwnProperty(key = keyExtractor(data[curIndex], curIndex))
         && layouts[key].pos + layouts[key].extent < clientPos) curIndex++;\<close>
\<close>

function scanIndex ::
  "('a \<Rightarrow> nat \<Rightarrow> key) \<Rightarrow> LayoutCache \<Rightarrow> 'a list \<Rightarrow> real \<Rightarrow> nat \<Rightarrow> nat" where
  "scanIndex ke lay d clientPos curIndex =
     (if curIndex < length d then
        (case lay (ke (d ! curIndex) curIndex) of
           None \<Rightarrow> curIndex
         | Some le \<Rightarrow>
             if pos le + extent le < clientPos
             then scanIndex ke lay d clientPos (Suc curIndex)
             else curIndex)
      else curIndex)"
  by pat_completeness auto
termination
  by (relation "measure (\<lambda>(ke, lay, d, clientPos, curIndex). length d - curIndex)") auto

declare scanIndex.simps [simp del]

definition resolveIndex ::
  "('a \<Rightarrow> nat \<Rightarrow> key) \<Rightarrow> LayoutCache \<Rightarrow> 'a list \<Rightarrow> real \<Rightarrow> nat" where
  "resolveIndex ke lay d clientPos = scanIndex ke lay d clientPos 0"

text \<open>
  The \<^verbatim>\<open>offset\<close> variable of the auto-scroll block, and the request made from it:
  \<^verbatim>\<open>if (offset !== 0) flatRef.current?.scrollToOffset({offset: scrollPos.current + offset})\<close>.
\<close>

definition autoScrollOffset :: "real \<Rightarrow> real \<Rightarrow> real \<Rightarrow> real \<Rightarrow> real" where
  "autoScrollOffset wrapPos dragItemExtent scroll viewExtent =
     (let leadingEdge = wrapPos - dragItemExtent / 2;
          trailingEdge = wrapPos + dragItemExtent / 2
      in if leadingEdge < 0 then
           (if scroll \<ge> dragItemExtent then - dragItemExtent else - scroll)
         else if trailingEdge > viewExtent then scroll + dragItemExtent
         else 0)"

definition autoScroll :: "bool \<Rightarrow> real \<Rightarrow> real \<Rightarrow> real \<Rightarrow> real \<Rightarrow> effect list" where
  "autoScroll listRef wrapPos dragItemExtent scroll viewExtent =
     (let offset = autoScrollOffset wrapPos dragItemExtent scroll viewExtent
      in if offset \<noteq> 0 \<and> listRef then [ScrollToOffset (scroll + offset)] else [])"

section \<open>The pan responder's handlers\<close>

text \<open>
  The four capture predicates have the same body,
  \<^verbatim>\<open>!!activeKey.current && !reorderingRef.current\<close>.
\<close>

definition onStartShouldSetPanResponderCapture :: "'a dragState \<Rightarrow> bool" where
  "onStartShouldSetPanResponderCapture s = (truthy (activeKey s) \<and> \<not> reorderingRef s)"

definition onStartShouldSetPanResponder :: "'a dragState \<Rightarrow> bool" where
  "onStartShouldSetPanResponder s = (truthy (activeKey s) \<and> \<not> reorderingRef s)"

definition onMoveShouldSetPanResponder :: "'a dragState \<Rightarrow> bool" where
  "onMoveShouldSetPanResponder s = (truthy (activeKey s) \<and> \<not> reorderingRef s)"

definition onMoveShouldSetPanResponderCapture :: "'a dragState \<Rightarrow> bool" where
  "onMoveShouldSetPanResponderCapture s = (truthy (activeKey s) \<and> \<not> reorderingRef s)"

definition reset :: "'a dragState \<Rightarrow> 'a dragState" where
  "reset s =
     s\<lparr>activeIndex := -1, activeKey := None, panIndex := -1,
       extra := \<lparr>extraActiveKey = None, extraPanIndex = -1\<rparr>,
       pan := 0, panGrantedRef := False\<rparr>"

definition onPanResponderGrant ::
  "'a props \<Rightarrow> gestate \<Rightarrow> 'a dragState \<Rightarrow> 'a dragState \<times> effect list" where
  "onPanResponderGrant P g s =
     (s\<lparr>pan := (if horizontal P then dx g else dy g), panGrantedRef := True\<rparr>,
      (if flatWrapRefSet P then [MeasureForGrant] else []) @
      (if onDragBeginSet P then [CallOnDragBegin] else []))"

text \<open>
  The callback of the grant's \<^verbatim>\<open>measure\<close>, run later by the platform with the measured
  \<^verbatim>\<open>pageX\<close>, \<^verbatim>\<open>pageY\<close>:
  \<^verbatim>\<open>flatWrapLayout.current = {...flatWrapLayout.current, pos: horizontal ? pageX : pageY}\<close>.
\<close>

definition grantMeasured :: "'a props \<Rightarrow> real \<Rightarrow> real \<Rightarrow> 'a dragState \<Rightarrow> 'a dragState" where
  "grantMeasured P pageX pageY s =
     s\<lparr>flatWrapLayout := (flatWrapLayout s)\<lparr>pos := (if horizontal P then pageX else pageY)\<rparr>\<rparr>"

text \<open>
  The first lines of \<^verbatim>\<open>onPanResponderMove\<close>: the pointer relative to the container
  (\<^verbatim>\<open>wrapPos\<close>) and in content coordinates (\<^verbatim>\<open>clientPos\<close>).
\<close>

definition wrapPosOf :: "'a props \<Rightarrow> gestate \<Rightarrow> 'a dragState \<Rightarrow> real" where
  "wrapPosOf P g s =
     (let posOrigin = (if horizontal P then x0 g else y0 g);
          posDelta = (if horizontal P then dx g else dy g)
      in posOrigin + posDelta - pos (flatWrapLayout s))"

definition clientPosOf :: "'a props \<Rightarrow> gestate \<Rightarrow> 'a dragState \<Rightarrow> real" where
  "clientPosOf P g s = wrapPosOf P g s + scrollPos s"

text \<open>
  \<^verbatim>\<open>setExtra({...extra, panIndex: curIndex})\<close> spreads the \<^verbatim>\<open>extra\<close> of the first render,
  which is \<^const>\<open>initialExtra\<close>. The guard is
  \<^verbatim>\<open>activeKey.current && layouts.hasOwnProperty(activeKey.current)\<close>.
\<close>

definition onPanResponderMove ::
  "'a props \<Rightarrow> gestate \<Rightarrow> 'a dragState \<Rightarrow> 'a dragState \<times> effect list" where
  "onPanResponderMove P g s =
     (let wrapPos = wrapPosOf P g s;
          clientPos = clientPosOf P g s
      in case activeKey s of
           None \<Rightarrow> (s, [])
         | Some ak \<Rightarrow>
             if ak = [] then (s, [])
             else
               (case layouts s ak of
                  None \<Rightarrow> (s, [])
                | Some le \<Rightarrow>
                    let dragItemExtent = extent le;
                        scrolls = autoScroll (flatRefSet P) wrapPos dragItemExtent
                                    (scrollPos s) (extent (flatWrapLayout s));
                        curIndex = int (resolveIndex (keyExtractor P) (layouts s) (dataRef s)
                                          clientPos);
                        s1 = s\<lparr>pan := clientPos - (pos le + dragItemExtent / 2)\<rparr>;
                        changed = (panIndex s \<noteq> curIndex);
                        s2 = (if changed
                              then s1\<lparr>extra := initialExtra\<lparr>extraPanIndex := curIndex\<rparr>\<rparr>
                              else s1);
                        hover = (if changed \<and> hoverRefSet P
                                 then [CallOnHoverChanged curIndex] else [])
                    in (s2\<lparr>panIndex := curIndex\<rparr>, scrolls @ hover)))"

text \<open>
  \<^verbatim>\<open>onPanResponderRelease\<close> is an async function. \<open>releaseBegin\<close> is its body up to the
  \<^verbatim>\<open>await\<close> (the flag says whether it is suspended there); \<open>releaseSettle\<close> is the rest,
  run when the awaited value settles: the \<^verbatim>\<open>finally\<close> block, then \<^verbatim>\<open>reset()\<close> unless the
  rejection leaves the function first.
\<close>

definition releaseCondition :: "'a dragState \<Rightarrow> bool" where
  "releaseCondition s =
     (activeIndex s \<noteq> panIndex s \<and>
      \<not> (activeIndex s = int (length (dataRef s)) - 1 \<and> panIndex s > activeIndex s))"

definition releaseBegin :: "'a props \<Rightarrow> 'a dragState \<Rightarrow> 'a dragState \<times> effect list \<times> bool" where
  "releaseBegin P s =
     (let ended = (if onDragEndSet P then [CallOnDragEnd] else [])
      in if releaseCondition s then
           (s\<lparr>reorderingRef := True\<rparr>,
            ended @ (if reorderRefSet s then [CallOnReordered (activeIndex s) (panIndex s)]
                     else []),
            True)
         else (reset s, ended, False))"

definition releaseSettle :: "settlement \<Rightarrow> 'a dragState \<Rightarrow> 'a dragState \<times> completion" where
  "releaseSettle r s =
     (let s1 = s\<lparr>reorderingRef := False\<rparr>
      in case r of Fulfilled \<Rightarrow> (reset s1, Returns) | Rejected \<Rightarrow> (s1, Throws))"

text \<open>
  The whole release when no other event comes between the two halves; \<open>r\<close> is how the
  handler's promise settles. Without a handler the awaited value is \<^verbatim>\<open>undefined\<close>, which
  is always fulfilled.
\<close>

definition onPanResponderRelease ::
  "'a props \<Rightarrow> settlement \<Rightarrow> 'a dragState \<Rightarrow> 'a dragState \<times> effect list \<times> completion" where
  "onPanResponderRelease P r s =
     (case releaseBegin P s of
        (s1, effs, suspended) \<Rightarrow>
          if suspended then
            (case releaseSettle (if reorderRefSet s then r else Fulfilled) s1 of
               (s2, c) \<Rightarrow> (s2, effs, c))
          else (s1, effs, Returns))"

section \<open>The rest of the component\<close>

text \<open>
  \<^verbatim>\<open>onDragStart\<close> and \<^verbatim>\<open>onDragEnd\<close> are the closures \<^verbatim>\<open>renderDragItem\<close> hands to each
  rendered item; \<open>d\<close> is the \<^verbatim>\<open>data\<close> prop of that render.
\<close>

definition onDragStart ::
  "('a \<Rightarrow> nat \<Rightarrow> key) \<Rightarrow> 'a list \<Rightarrow> 'a \<Rightarrow> nat \<Rightarrow> 'a dragState \<Rightarrow> 'a dragState" where
  "onDragStart ke d item index s =
     (let k = ke item index
      in if length d > 1 then
           s\<lparr>activeIndex := int index, activeKey := Some k, panIndex := int index,
             extra := \<lparr>extraActiveKey = Some k, extraPanIndex = int index\<rparr>\<rparr>
         else s)"

definition onDragEnd :: "'a dragState \<Rightarrow> 'a dragState" where
  "onDragEnd s = (if activeKey s \<noteq> None \<and> \<not> panGrantedRef s then reset s else s)"

definition isActive :: "('a \<Rightarrow> nat \<Rightarrow> key) \<Rightarrow> 'a \<Rightarrow> nat \<Rightarrow> 'a dragState \<Rightarrow> bool" where
  "isActive ke item index s = (activeKey s = Some (ke item index))"

definition onDragScroll :: "'a props \<Rightarrow> real \<Rightarrow> real \<Rightarrow> 'a dragState \<Rightarrow> 'a dragState" where
  "onDragScroll P x y s = s\<lparr>scrollPos := (if horizontal P then x else y)\<rparr>"

definition onDragLayout :: "'a props \<Rightarrow> 'a dragState \<Rightarrow> 'a dragState \<times> effect list" where
  "onDragLayout P s = (s, if flatWrapRefSet P then [MeasureForLayout] else [])"

definition layoutMeasured ::
  "'a props \<Rightarrow> real \<Rightarrow> real \<Rightarrow> real \<Rightarrow> real \<Rightarrow> 'a dragState \<Rightarrow> 'a dragState" where
  "layoutMeasured P width height pageX pageY s =
     s\<lparr>flatWrapLayout := (if horizontal P then \<lparr>pos = pageX, extent = width\<rparr>
                           else \<lparr>pos = pageY, extent = height\<rparr>)\<rparr>"

definition onCellLayout ::
  "bool \<Rightarrow> key \<Rightarrow> real \<Rightarrow> real \<Rightarrow> real \<Rightarrow> real \<Rightarrow> 'a dragState \<Rightarrow> 'a dragState" where
  "onCellLayout horiz k x y width height s =
     s\<lparr>layouts := (layouts s)(k \<mapsto> (if horiz then \<lparr>pos = x, extent = width\<rparr>
                                      else \<lparr>pos = y, extent = height\<rparr>))\<rparr>"

text \<open>The two effects that copy props into refs.\<close>

definition dataEffect :: "'a list \<Rightarrow> 'a dragState \<Rightarrow> 'a dragState" where
  "dataEffect d s = s\<lparr>dataRef := d\<rparr>"

definition reorderEffect :: "bool \<Rightarrow> 'a dragState \<Rightarrow> 'a dragState" where
  "reorderEffect given s = s\<lparr>reorderRefSet := given\<rparr>"

text \<open>
  The list's \<^verbatim>\<open>scrollEnabled\<close> prop at a render: \<^verbatim>\<open>scrollEnabled={!activeKey.current}\<close>
  followed by \<^verbatim>\<open>{...rest}\<close>, so a \<^verbatim>\<open>scrollEnabled\<close> the caller passes (\<open>Some b\<close>) wins.
\<close>

definition scrollEnabled :: "bool option \<Rightarrow> 'a dragState \<Rightarrow> bool" where
  "scrollEnabled rest s = (case rest of Some b \<Rightarrow> b | None \<Rightarrow> \<not> truthy (activeKey s))"

text \<open>Every event the component handles, and the handler each one runs.\<close>

datatype 'a event =
    Grant gestate
  | GrantMeasured real real
  | Move gestate
  | ReleaseBegin
  | ReleaseSettle settlement
  | DragStart "'a list" 'a nat
  | DragEnd
  | Scroll real real
  | Layout
  | LayoutMeasured real real real real
  | CellLayout key real real real real
  | DataChanged "'a list"
  | ReorderChanged bool

fun handle :: "'a props \<Rightarrow> 'a event \<Rightarrow> 'a dragState \<Rightarrow> 'a dragState \<times> effect list" where
  "handle P (Grant g) s = onPanResponderGrant P g s"
| "handle P (GrantMeasured pageX pageY) s = (grantMeasured P pageX pageY s, [])"
| "handle P (Move g) s = onPanResponderMove P g s"
| "handle P ReleaseBegin s = (case releaseBegin P s of (s1, effs, suspended) \<Rightarrow> (s1, effs))"
| "handle P (ReleaseSettle r) s = (fst (releaseSettle r s), [])"
| "handle P (DragStart d item index) s = (onDragStart (keyExtractor P) d item index s, [])"
| "handle P DragEnd s = (onDragEnd s, [])"
| "handle P (Scroll x y) s = (onDragScroll P x y s, [])"
| "handle P Layout s = onDragLayout P s"
| "handle P (LayoutMeasured width height pageX pageY) s =
     (layoutMeasured P width height pageX pageY s, [])"
| "handle P (CellLayout k x y width height) s =
     (onCellLayout (horizontal P) k x y width height s, [])"
| "handle P (DataChanged d) s = (dataEffect d s, [])"
| "handle P (ReorderChanged given) s = (reorderEffect given s, [])"

section \<open>CellRendererComponent\<close>

text \<open>
  Each cell owns an animated value \<^verbatim>\<open>anim\<close> and the flag \<^verbatim>\<open>isOffset\<close>. \<open>animGoal\<close> is the
  value \<^verbatim>\<open>anim\<close> holds or is being animated to: the argument of the last
  \<^verbatim>\<open>Animated.timing(anim, {toValue})\<close> or \<^verbatim>\<open>anim.setValue\<close>.
\<close>

datatype animCall = AnimTiming real | AnimSetValue real

record cell =
  isOffset :: bool
  animGoal :: real

fun goalOf :: "animCall \<Rightarrow> real" where
  "goalOf (AnimTiming v) = v"
| "goalOf (AnimSetValue v) = v"

definition initialCell :: cell where
  "initialCell = \<lparr>isOffset = False, animGoal = 0\<rparr>"

text \<open>
  The first effect (dependencies \<^verbatim>\<open>activeKey, index, panIndex, key, activeIndex, horizontal\<close>):
  the calls it makes on \<^verbatim>\<open>anim\<close> and the value it gives \<^verbatim>\<open>setIsOffset\<close>.
\<close>

definition displaceRest :: "key option \<Rightarrow> animCall list \<times> bool" where
  "displaceRest aKey = ((if \<not> truthy aKey then [AnimSetValue 0] else []), False)"

definition displaceEffect ::
  "key option \<Rightarrow> int \<Rightarrow> int \<Rightarrow> LayoutCache \<Rightarrow> key \<Rightarrow> nat \<Rightarrow> animCall list \<times> bool" where
  "displaceEffect aKey aIndex pIndex lay k index =
     (case aKey of
        None \<Rightarrow> displaceRest aKey
      | Some ak \<Rightarrow>
          if ak \<noteq> [] \<and> k \<noteq> ak then
            (case lay ak of
               None \<Rightarrow> displaceRest aKey
             | Some le \<Rightarrow>
                 if int index \<ge> pIndex \<and> int index \<le> aIndex
                 then ([AnimTiming (extent le)], True)
                 else if int index \<ge> aIndex \<and> int index \<le> pIndex
                 then ([AnimTiming (- extent le)], True)
                 else displaceRest aKey)
          else displaceRest aKey)"

text \<open>The second effect (dependency \<^verbatim>\<open>isOffset\<close>).\<close>

definition restEffect :: "bool \<Rightarrow> animCall list" where
  "restEffect off = (if \<not> off then [AnimTiming 0] else [])"

text \<open>
  A render after the first effect's dependencies changed: the first effect runs, and the
  second one runs after it when \<^verbatim>\<open>isOffset\<close> changed. \<open>cellMount\<close> is the first render,
  where both effects run.
\<close>

definition applyCalls :: "animCall list \<Rightarrow> real \<Rightarrow> real" where
  "applyCalls calls goal = (if calls = [] then goal else goalOf (last calls))"


definition cellMount ::
  "key option \<Rightarrow> int \<Rightarrow> int \<Rightarrow> LayoutCache \<Rightarrow> key \<Rightarrow> nat \<Rightarrow> cell \<times> animCall list" where
  "cellMount aKey aIndex pIndex lay k index =
     (case displaceEffect aKey aIndex pIndex lay k index of
        (calls, off) \<Rightarrow>
          let calls2 = calls @ restEffect False @ (if off then restEffect off else [])
          in (\<lparr>isOffset = off, animGoal = applyCalls calls2 0\<rparr>, calls2))"






section \<open>Sample inputs\<close>

text \<open>
  The inputs of the concrete evaluations below: a key extractor for a list of strings in
  which every item is its own key, the props of a vertical list with every callback
  supplied, and a list of eight rows of 50 pixels in a container of 200 pixels, scrolled
  by 100, whose third item \<open>c\<close> is being dragged and hovers over the fourth.
\<close>

definition idKey :: "key \<Rightarrow> nat \<Rightarrow> key" where
  "idKey item index = item"

definition sampleProps :: "key props" where
  "sampleProps =
     \<lparr>horizontal = False, keyExtractor = idKey, onDragBeginSet = True, onDragEndSet = True,
      hoverRefSet = True, flatRefSet = True, flatWrapRefSet = True\<rparr>"

definition sampleData :: "key list" where
  "sampleData = [''a'', ''b'', ''c'', ''d'', ''e'', ''f'', ''g'', ''h'']"

definition sampleLayouts :: LayoutCache where
  "sampleLayouts =
     [''a'' \<mapsto> \<lparr>pos = 0, extent = 50\<rparr>, ''b'' \<mapsto> \<lparr>pos = 50, extent = 50\<rparr>,
      ''c'' \<mapsto> \<lparr>pos = 100, extent = 50\<rparr>, ''d'' \<mapsto> \<lparr>pos = 150, extent = 50\<rparr>,
      ''e'' \<mapsto> \<lparr>pos = 200, extent = 50\<rparr>, ''f'' \<mapsto> \<lparr>pos = 250, extent = 50\<rparr>,
      ''g'' \<mapsto> \<lparr>pos = 300, extent = 50\<rparr>, ''h'' \<mapsto> \<lparr>pos = 350, extent = 50\<rparr>]"

definition draggingState :: "key dragState" where
  "draggingState =
     \<lparr>activeKey = Some ''c'', activeIndex = 2, reorderingRef = False, panIndex = 3,
      extra = \<lparr>extraActiveKey = None, extraPanIndex = 3\<rparr>, layouts = sampleLayouts,
      dataRef = sampleData, panGrantedRef = True, reorderRefSet = True,
      flatWrapLayout = \<lparr>pos = 0, extent = 200\<rparr>, scrollPos = 100, pan = 50\<rparr>"

text \<open>The calls of the reorder handler among the calls a handler made.\<close>

fun isReordered :: "effect \<Rightarrow> bool" where
  "isReordered (CallOnReordered a b) = True"
| "isReordered other = False"

section \<open>Properties\<close>

lemma scanIndex_advance:
  assumes "i < length d" and "lay (ke (d ! i) i) = Some le" and "pos le + extent le < c"
  shows "scanIndex ke lay d c i = scanIndex ke lay d c (Suc i)"
  using assms by (subst scanIndex.simps) simp

lemma scanIndex_halt_unmeasured:
  assumes "i < length d" and "lay (ke (d ! i) i) = None"
  shows "scanIndex ke lay d c i = i"
  using assms by (subst scanIndex.simps) simp

lemma scanIndex_halt_boundary:
  assumes "i < length d" and "lay (ke (d ! i) i) = Some le" and "\<not> pos le + extent le < c"
  shows "scanIndex ke lay d c i = i"
  using assms by (subst scanIndex.simps) simp

lemma scanIndex_halt_end: "\<not> i < length d \<Longrightarrow> scanIndex ke lay d c i = i"
  by (subst scanIndex.simps) simp

lemma scanIndex_ge: "i \<le> scanIndex ke lay d c i"
proof (induction ke lay d c i rule: scanIndex.induct)
  case (1 ke lay d c i)
  show ?case
  proof (cases "i < length d")
    case False
    then show ?thesis by (simp add: scanIndex_halt_end)
  next
    case inside: True
    show ?thesis
    proof (cases "lay (ke (d ! i) i)")
      case None
      with inside show ?thesis by (simp add: scanIndex_halt_unmeasured)
    next
      case (Some le)
      show ?thesis
      proof (cases "pos le + extent le < c")
        case True
        have "scanIndex ke lay d c i = scanIndex ke lay d c (Suc i)"
          using inside Some True by (rule scanIndex_advance)
        moreover have "Suc i \<le> scanIndex ke lay d c (Suc i)"
          using inside Some True by (rule "1.IH")
        ultimately show ?thesis by simp
      next
        case False
        with inside Some show ?thesis by (simp add: scanIndex_halt_boundary)
      qed
    qed
  qed
qed

text \<open>The scan walks over every item whose trailing boundary lies below the position.\<close>

lemma scanIndex_skip:
  assumes "k \<le> i" and "i \<le> length d"
    and "\<forall>j. k \<le> j \<and> j < i \<longrightarrow>
           (\<exists>le. lay (ke (d ! j) j) = Some le \<and> pos le + extent le < c)"
  shows "scanIndex ke lay d c k = scanIndex ke lay d c i"
  using assms
proof (induction i rule: dec_induct)
  case base
  show ?case by simp
next
  case (step n)
  from step.prems step.hyps have "n < length d" by simp
  moreover from step.prems(2) step.hyps(1) obtain le
    where "lay (ke (d ! n) n) = Some le" and "pos le + extent le < c"
    by auto
  ultimately have "scanIndex ke lay d c n = scanIndex ke lay d c (Suc n)"
    by (rule scanIndex_advance)
  moreover have "scanIndex ke lay d c k = scanIndex ke lay d c n"
    using step by simp
  ultimately show ?case by simp
qed

lemma scanIndex_mono:
  "c1 \<le> c2 \<Longrightarrow> scanIndex ke lay d c1 i \<le> scanIndex ke lay d c2 i"
proof (induction ke lay d c1 i rule: scanIndex.induct)
  case (1 ke lay d c1 i)
  show ?case
  proof (cases "i < length d")
    case False
    then show ?thesis by (simp add: scanIndex_halt_end)
  next
    case inside: True
    show ?thesis
    proof (cases "lay (ke (d ! i) i)")
      case None
      with inside show ?thesis by (simp add: scanIndex_halt_unmeasured)
    next
      case (Some le)
      show ?thesis
      proof (cases "pos le + extent le < c1")
        case True
        with \<open>c1 \<le> c2\<close> have below: "pos le + extent le < c2" by simp
        have "scanIndex ke lay d c1 (Suc i) \<le> scanIndex ke lay d c2 (Suc i)"
          using "1.IH" [OF inside Some True] \<open>c1 \<le> c2\<close> by simp
        moreover have "scanIndex ke lay d c1 i = scanIndex ke lay d c1 (Suc i)"
          using inside Some True by (rule scanIndex_advance)
        moreover have "scanIndex ke lay d c2 i = scanIndex ke lay d c2 (Suc i)"
          using inside Some below by (rule scanIndex_advance)
        ultimately show ?thesis by simp
      next
        case False
        then have "scanIndex ke lay d c1 i = i"
          using inside Some by (simp add: scanIndex_halt_boundary)
        then show ?thesis by (simp add: scanIndex_ge)
      qed
    qed
  qed
qed

text \<open>
  C7. The resolved index is monotonic in the client position: for \<open>c1 < c2\<close> the index
  resolved for \<open>c1\<close> is at most the one resolved for \<open>c2\<close>. It holds for every layout
  cache, so in particular for a list whose items are all measured.
\<close>

theorem resolveIndex_monotonic:
  "c1 < c2 \<Longrightarrow> resolveIndex ke lay d c1 \<le> resolveIndex ke lay d c2"
  unfolding resolveIndex_def by (rule scanIndex_mono) simp

theorem resolveIndex_monotonic_witness:
  "(120::real) < 220 \<and>
   resolveIndex idKey sampleLayouts sampleData 120
     \<le> resolveIndex idKey sampleLayouts sampleData 220"
proof -
  have h: "(120::real) < 220" by simp
  show ?thesis using h resolveIndex_monotonic [OF h] by simp
qed

text \<open>
  C4, as stated: a position equal to \<open>pos + extent\<close> of an item resolves to the next
  index. On a measured two-item list with extents 50, position 50 is the trailing
  boundary of item 0 and resolves to 0, not to 1.
\<close>

theorem boundary_counterexample:
  "pos \<lparr>pos = 0, extent = 50\<rparr> + extent \<lparr>pos = 0, extent = 50\<rparr> = (50::real) \<and>
   resolveIndex idKey [''a'' \<mapsto> \<lparr>pos = 0, extent = 50\<rparr>, ''b'' \<mapsto> \<lparr>pos = 50, extent = 50\<rparr>]
     [''a'', ''b''] 50 = 0 \<and>
   resolveIndex idKey [''a'' \<mapsto> \<lparr>pos = 0, extent = 50\<rparr>, ''b'' \<mapsto> \<lparr>pos = 50, extent = 50\<rparr>]
     [''a'', ''b''] 50 \<noteq> 1"
  by (simp add: resolveIndex_def idKey_def scanIndex.simps)

text \<open>
  C4, amended: the scan advances only on \<open>pos + extent < c\<close>, so a position equal to the
  trailing boundary of item \<open>i\<close> resolves to \<open>i\<close> itself whenever the scan reaches \<open>i\<close>
  (every earlier item is measured and ends below the position): the boundary belongs to
  the item it ends.
\<close>

theorem resolveIndex_at_boundary:
  assumes "i < length d"
    and "\<forall>j<i. \<exists>e. lay (ke (d ! j) j) = Some e \<and> pos e + extent e < c"
    and "lay (ke (d ! i) i) = Some le"
    and "pos le + extent le = c"
  shows "resolveIndex ke lay d c = i"
proof -
  have "scanIndex ke lay d c 0 = scanIndex ke lay d c i"
    using assms(1,2) by (intro scanIndex_skip) auto
  also have "\<dots> = i"
    using assms(1,3,4) by (intro scanIndex_halt_boundary) auto
  finally show ?thesis by (simp add: resolveIndex_def)
qed

theorem resolveIndex_at_boundary_witness:
  "resolveIndex idKey sampleLayouts sampleData 100 = 1"
proof -
  have "(1::nat) < length sampleData" by (simp add: sampleData_def)
  moreover have "\<forall>j<(1::nat). \<exists>e. sampleLayouts (idKey (sampleData ! j) j) = Some e
                    \<and> pos e + extent e < 100"
    by (simp add: sampleLayouts_def sampleData_def idKey_def)
  moreover have "sampleLayouts (idKey (sampleData ! 1) 1) = Some \<lparr>pos = 50, extent = 50\<rparr>"
    by (simp add: sampleLayouts_def sampleData_def idKey_def)
  moreover have "pos \<lparr>pos = 50, extent = 50\<rparr> + extent \<lparr>pos = 50, extent = 50\<rparr> = (100::real)"
    by simp
  ultimately show ?thesis by (rule resolveIndex_at_boundary)
qed

subsection \<open>A pointer move over an unmeasured item\<close>

lemma resolveIndex_unmeasured:
  assumes "i < length d"
    and "\<forall>j<i. \<exists>e. lay (ke (d ! j) j) = Some e \<and> pos e + extent e < c"
    and "lay (ke (d ! i) i) = None"
  shows "resolveIndex ke lay d c = i"
proof -
  have "scanIndex ke lay d c 0 = scanIndex ke lay d c i"
    using assms(1,2) by (intro scanIndex_skip) auto
  also have "\<dots> = i"
    using assms(1,3) by (rule scanIndex_halt_unmeasured)
  finally show ?thesis by (simp add: resolveIndex_def)
qed

lemma move_panIndex:
  assumes "activeKey s = Some ak" and "ak \<noteq> []" and "layouts s ak = Some le"
  shows "panIndex (fst (onPanResponderMove P g s)) =
           int (resolveIndex (keyExtractor P) (layouts s) (dataRef s) (clientPosOf P g s))"
  using assms by (simp add: onPanResponderMove_def Let_def)

lemma move_hover:
  assumes "activeKey s = Some ak" and "ak \<noteq> []" and "layouts s ak = Some le"
  shows "CallOnHoverChanged n \<in> set (snd (onPanResponderMove P g s)) \<longleftrightarrow>
           hoverRefSet P \<and>
           n = int (resolveIndex (keyExtractor P) (layouts s) (dataRef s) (clientPosOf P g s)) \<and>
           panIndex s \<noteq> n"
  using assms by (auto simp add: onPanResponderMove_def autoScroll_def Let_def)

text \<open>
  C6, as stated: when the scan reaches an item with no layout entry, the previous
  panIndex is retained. In the sample list let only \<open>a\<close>, \<open>b\<close> and \<open>c\<close> be measured, with
  \<open>c\<close> being dragged, the previous panIndex 2 and the pointer at content position 220:
  the scan passes \<open>a\<close>, \<open>b\<close> and \<open>c\<close>, halts at the unmeasured \<open>d\<close>, and panIndex becomes 3
  (and the hover callback is told so).
\<close>

theorem unmeasured_counterexample:
  "layouts (draggingState\<lparr>panIndex := 2,
       layouts := [''a'' \<mapsto> \<lparr>pos = 0, extent = 50\<rparr>, ''b'' \<mapsto> \<lparr>pos = 50, extent = 50\<rparr>,
                   ''c'' \<mapsto> \<lparr>pos = 100, extent = 50\<rparr>]\<rparr>) ''d'' = None \<and>
   clientPosOf sampleProps \<lparr>x0 = 0, y0 = 25, dx = 0, dy = 95\<rparr>
     (draggingState\<lparr>panIndex := 2,
        layouts := [''a'' \<mapsto> \<lparr>pos = 0, extent = 50\<rparr>, ''b'' \<mapsto> \<lparr>pos = 50, extent = 50\<rparr>,
                    ''c'' \<mapsto> \<lparr>pos = 100, extent = 50\<rparr>]\<rparr>) = 220 \<and>
   panIndex (fst (onPanResponderMove sampleProps \<lparr>x0 = 0, y0 = 25, dx = 0, dy = 95\<rparr>
     (draggingState\<lparr>panIndex := 2,
        layouts := [''a'' \<mapsto> \<lparr>pos = 0, extent = 50\<rparr>, ''b'' \<mapsto> \<lparr>pos = 50, extent = 50\<rparr>,
                    ''c'' \<mapsto> \<lparr>pos = 100, extent = 50\<rparr>]\<rparr>))) = 3 \<and>
   snd (onPanResponderMove sampleProps \<lparr>x0 = 0, y0 = 25, dx = 0, dy = 95\<rparr>
     (draggingState\<lparr>panIndex := 2,
        layouts := [''a'' \<mapsto> \<lparr>pos = 0, extent = 50\<rparr>, ''b'' \<mapsto> \<lparr>pos = 50, extent = 50\<rparr>,
                    ''c'' \<mapsto> \<lparr>pos = 100, extent = 50\<rparr>]\<rparr>)) = [CallOnHoverChanged 3]"
  by (simp add: onPanResponderMove_def wrapPosOf_def clientPosOf_def autoScroll_def
      autoScrollOffset_def resolveIndex_def scanIndex.simps idKey_def sampleProps_def
      draggingState_def sampleData_def initialExtra_def Let_def)

text \<open>
  C6, amended: on a pointer move with the dragged item measured, if the scan reaches an
  item \<open>i\<close> whose key has no layout entry (every earlier item is measured and ends below
  the client position), resolution halts there and panIndex is set to \<open>i\<close>, the index of
  the unmeasured item; the hover callback, when supplied, is called with \<open>i\<close> exactly when
  \<open>i\<close> differs from the previous panIndex.
\<close>

theorem move_halts_at_unmeasured:
  assumes "activeKey s = Some ak" and "ak \<noteq> []" and "layouts s ak = Some le"
    and "i < length (dataRef s)"
    and "\<forall>j<i. \<exists>e. layouts s (keyExtractor P (dataRef s ! j) j) = Some e
                  \<and> pos e + extent e < clientPosOf P g s"
    and "layouts s (keyExtractor P (dataRef s ! i) i) = None"
  shows "panIndex (fst (onPanResponderMove P g s)) = int i \<and>
         (CallOnHoverChanged (int i) \<in> set (snd (onPanResponderMove P g s)) \<longleftrightarrow>
            hoverRefSet P \<and> panIndex s \<noteq> int i)"
proof -
  have r: "resolveIndex (keyExtractor P) (layouts s) (dataRef s) (clientPosOf P g s) = i"
    using assms(4,5,6) by (rule resolveIndex_unmeasured)
  show ?thesis
    using move_panIndex [OF assms(1,2,3), of P g] move_hover [OF assms(1,2,3), of "int i" P g] r
    by simp
qed

theorem move_halts_at_unmeasured_witness:
  "panIndex (fst (onPanResponderMove sampleProps \<lparr>x0 = 0, y0 = 25, dx = 0, dy = 95\<rparr>
     (draggingState\<lparr>layouts := [''a'' \<mapsto> \<lparr>pos = 0, extent = 50\<rparr>,
                                 ''c'' \<mapsto> \<lparr>pos = 100, extent = 50\<rparr>]\<rparr>))) = 1"
proof -
  let ?s = "draggingState\<lparr>layouts := [''a'' \<mapsto> \<lparr>pos = 0, extent = 50\<rparr>,
                                       ''c'' \<mapsto> \<lparr>pos = 100, extent = 50\<rparr>]\<rparr>"
  let ?g = "\<lparr>x0 = 0, y0 = 25, dx = 0, dy = 95\<rparr>"
  have 1: "activeKey ?s = Some ''c''" by (simp add: draggingState_def)
  have 2: "''c'' \<noteq> []" by simp
  have 3: "layouts ?s ''c'' = Some \<lparr>pos = 100, extent = 50\<rparr>" by simp
  have 4: "1 < length (dataRef ?s)" by (simp add: draggingState_def sampleData_def)
  have 5: "\<forall>j<1. \<exists>e. layouts ?s (keyExtractor sampleProps (dataRef ?s ! j) j) = Some e
              \<and> pos e + extent e < clientPosOf sampleProps ?g ?s"
    by (simp add: draggingState_def sampleData_def sampleProps_def idKey_def clientPosOf_def
        wrapPosOf_def)
  have 6: "layouts ?s (keyExtractor sampleProps (dataRef ?s ! 1) 1) = None"
    by (simp add: draggingState_def sampleData_def sampleProps_def idKey_def)
  show ?thesis
    using move_halts_at_unmeasured [OF 1 2 3 4 5 6] by simp
qed

subsection \<open>Auto-scroll\<close>

text \<open>
  What the auto-scroll block requests, branch by branch. Backward, the target is the
  scroll offset less \<open>min scroll extent\<close>; forward, \<^verbatim>\<open>offset\<close> already holds
  \<^verbatim>\<open>scrollPos.current + dragItemExtent\<close> and \<^verbatim>\<open>scrollPos.current\<close> is added to it once more.
\<close>

lemma autoScroll_backward:
  assumes "wrapPos - e / 2 < 0" and "min scroll e \<noteq> 0"
  shows "autoScroll True wrapPos e scroll v = [ScrollToOffset (scroll - min scroll e)]"
  using assms by (auto simp add: autoScroll_def autoScrollOffset_def Let_def min_def)

lemma autoScroll_backward_zero:
  assumes "wrapPos - e / 2 < 0" and "min scroll e = 0"
  shows "autoScroll listRef wrapPos e scroll v = []"
  using assms
  by (auto simp add: autoScroll_def autoScrollOffset_def Let_def min_def split: if_splits)

lemma autoScroll_forward:
  assumes "\<not> wrapPos - e / 2 < 0" and "wrapPos + e / 2 > v" and "scroll + e \<noteq> 0"
  shows "autoScroll True wrapPos e scroll v = [ScrollToOffset (2 * scroll + e)]"
  using assms by (simp add: autoScroll_def autoScrollOffset_def Let_def)

lemma autoScroll_inside:
  assumes "\<not> wrapPos - e / 2 < 0" and "\<not> wrapPos + e / 2 > v"
  shows "autoScroll listRef wrapPos e scroll v = []"
  using assms by (simp add: autoScroll_def autoScrollOffset_def Let_def)

text \<open>
  C5 at scroll offset 100: the dragged item has extent 50, the viewport extent is 200 and
  the pointer is 190 below the container's top, so the leading edge is at 165 and the
  trailing edge at 215. The request goes to offset 250, which is 100 + (100 + 50), where
  the specification has scroll offset + extent, 100 + 50 = 150.
\<close>

theorem autoScroll_forward_doubles_scrollPos:
  "scrollPos draggingState = 100 \<and>
   layouts draggingState ''c'' = Some \<lparr>pos = 100, extent = 50\<rparr> \<and>
   extent (flatWrapLayout draggingState) = 200 \<and>
   wrapPosOf sampleProps \<lparr>x0 = 0, y0 = 100, dx = 0, dy = 90\<rparr> draggingState = 190 \<and>
   snd (onPanResponderMove sampleProps \<lparr>x0 = 0, y0 = 100, dx = 0, dy = 90\<rparr> draggingState)
     = [ScrollToOffset 250, CallOnHoverChanged 5]"
  by (simp add: onPanResponderMove_def wrapPosOf_def clientPosOf_def autoScroll_def
      autoScrollOffset_def resolveIndex_def scanIndex.simps idKey_def sampleProps_def
      draggingState_def sampleData_def sampleLayouts_def initialExtra_def Let_def)

subsection \<open>Release\<close>

lemma reset_fields:
  "activeKey (reset s) = None" "activeIndex (reset s) = -1" "panIndex (reset s) = -1"
  "pan (reset s) = 0" "panGrantedRef (reset s) = False"
  "reorderingRef (reset s) = reorderingRef s"
  by (simp_all add: reset_def)

lemma release_skipped:
  assumes "\<not> releaseCondition s"
  shows "onPanResponderRelease P r s =
           (reset s, (if onDragEndSet P then [CallOnDragEnd] else []), Returns)"
  using assms by (simp add: onPanResponderRelease_def releaseBegin_def Let_def)

lemma release_fulfilled:
  assumes "releaseCondition s"
  shows "onPanResponderRelease P Fulfilled s =
           (reset (s\<lparr>reorderingRef := False\<rparr>),
            (if onDragEndSet P then [CallOnDragEnd] else []) @
            (if reorderRefSet s then [CallOnReordered (activeIndex s) (panIndex s)] else []),
            Returns)"
  using assms
  by (simp add: onPanResponderRelease_def releaseBegin_def releaseSettle_def Let_def)

lemma release_rejected:
  assumes "releaseCondition s" and "reorderRefSet s"
  shows "onPanResponderRelease P Rejected s =
           (s\<lparr>reorderingRef := False\<rparr>,
            (if onDragEndSet P then [CallOnDragEnd] else []) @
            [CallOnReordered (activeIndex s) (panIndex s)],
            Throws)"
  using assms
  by (simp add: onPanResponderRelease_def releaseBegin_def releaseSettle_def Let_def)

text \<open>
  C2 on the sample drag (item 2 over item 3, captured) when the handler rejects:
  \<^verbatim>\<open>onDragEnd\<close> is called, the handler is called, the latch is cleared and the rejection
  leaves the function, but \<^verbatim>\<open>reset()\<close> stands after the \<^verbatim>\<open>try/finally\<close> and is not
  reached: activeKey, activeIndex, panIndex, the pan value and the captured flag are as
  the drag left them.
\<close>

theorem release_rejected_skips_reset:
  "onPanResponderRelease sampleProps Rejected draggingState =
     (draggingState, [CallOnDragEnd, CallOnReordered 2 3], Throws) \<and>
   activeKey draggingState = Some ''c'' \<and> activeIndex draggingState = 2 \<and>
   panIndex draggingState = 3 \<and> panGrantedRef draggingState \<and> pan draggingState = 50 \<and>
   \<not> reorderingRef draggingState"
  by (simp add: onPanResponderRelease_def releaseBegin_def releaseSettle_def
      releaseCondition_def sampleProps_def draggingState_def sampleData_def Let_def)

text \<open>
  C3. On release, the reorder handler (when one is supplied) is called exactly once, with
  \<open>(activeIndex, panIndex)\<close>, if \<open>activeIndex \<noteq> panIndex\<close> and it is not the case that
  \<open>activeIndex\<close> is the last index with \<open>panIndex > activeIndex\<close>; otherwise it is not
  called at all. The calls of the handler are the \<^const>\<open>CallOnReordered\<close> entries of the
  calls the release makes.
\<close>

theorem release_calls_reorder_once:
  assumes "reorderRefSet s"
  shows "filter isReordered (fst (snd (onPanResponderRelease P r s))) =
           (if activeIndex s \<noteq> panIndex s \<and>
               \<not> (activeIndex s = int (length (dataRef s)) - 1 \<and> panIndex s > activeIndex s)
            then [CallOnReordered (activeIndex s) (panIndex s)] else [])"
  using assms
  by (cases r)
    (simp_all add: onPanResponderRelease_def releaseBegin_def releaseSettle_def
      releaseCondition_def Let_def)

theorem release_calls_reorder_once_witness:
  "reorderRefSet draggingState \<and>
   filter isReordered (fst (snd (onPanResponderRelease sampleProps Fulfilled draggingState)))
     = [CallOnReordered 2 3] \<and>
   filter isReordered (fst (snd (onPanResponderRelease sampleProps Fulfilled
       (draggingState\<lparr>panIndex := 2\<rparr>)))) = [] \<and>
   filter isReordered (fst (snd (onPanResponderRelease sampleProps Fulfilled
       (draggingState\<lparr>activeIndex := 7, panIndex := 8\<rparr>)))) = []"
proof -
  have h: "reorderRefSet draggingState" by (simp add: draggingState_def)
  have h2: "reorderRefSet (draggingState\<lparr>panIndex := 2\<rparr>)"
    by (simp add: draggingState_def)
  have h3: "reorderRefSet (draggingState\<lparr>activeIndex := 7, panIndex := 8\<rparr>)"
    by (simp add: draggingState_def)
  show ?thesis
    using h release_calls_reorder_once [OF h, of sampleProps Fulfilled]
      release_calls_reorder_once [OF h2, of sampleProps Fulfilled]
      release_calls_reorder_once [OF h3, of sampleProps Fulfilled]
    by (simp add: draggingState_def sampleData_def)
qed

subsection \<open>The latch and the start of a drag\<close>

text \<open>
  C1, as stated: while the latch is held, \<^verbatim>\<open>onDragStart\<close> arms nothing. The release of the
  sample drag has called the reorder handler and holds the latch; \<^verbatim>\<open>onDragStart\<close> on item
  \<open>e\<close> then sets activeKey, activeIndex and panIndex to that item.
\<close>

theorem latch_dragStart_counterexample:
  "reorderingRef (fst (releaseBegin sampleProps draggingState)) \<and>
   activeKey (onDragStart idKey sampleData ''e'' 4
     (fst (releaseBegin sampleProps draggingState))) = Some ''e'' \<and>
   activeIndex (onDragStart idKey sampleData ''e'' 4
     (fst (releaseBegin sampleProps draggingState))) = 4 \<and>
   panIndex (onDragStart idKey sampleData ''e'' 4
     (fst (releaseBegin sampleProps draggingState))) = 4"
  by (simp add: releaseBegin_def releaseCondition_def onDragStart_def idKey_def
      draggingState_def sampleData_def Let_def)

text \<open>
  C1, amended: the latch gates the capture of the gesture, not the start signal. While
  the latch is held the four capture predicates of the pan responder are false, before
  and after an \<^verbatim>\<open>onDragStart\<close>, so no drag is captured; \<^verbatim>\<open>onDragStart\<close> itself does not read
  the latch: on a list of more than one item it sets activeKey, activeIndex and panIndex
  as usual, on a shorter list it changes nothing, and it leaves the latch held. The latch
  is cleared when the handler settles, either way.
\<close>

theorem latch_gates_capture:
  assumes "reorderingRef s"
  shows "\<not> onStartShouldSetPanResponderCapture s \<and> \<not> onStartShouldSetPanResponder s \<and>
         \<not> onMoveShouldSetPanResponder s \<and> \<not> onMoveShouldSetPanResponderCapture s \<and>
         reorderingRef (onDragStart ke d item index s) \<and>
         \<not> onStartShouldSetPanResponderCapture (onDragStart ke d item index s) \<and>
         \<not> onStartShouldSetPanResponder (onDragStart ke d item index s) \<and>
         \<not> onMoveShouldSetPanResponder (onDragStart ke d item index s) \<and>
         \<not> onMoveShouldSetPanResponderCapture (onDragStart ke d item index s) \<and>
         (if length d > 1
          then activeKey (onDragStart ke d item index s) = Some (ke item index) \<and>
               activeIndex (onDragStart ke d item index s) = int index \<and>
               panIndex (onDragStart ke d item index s) = int index
          else onDragStart ke d item index s = s) \<and>
         \<not> reorderingRef (fst (releaseSettle r s))"
  using assms
  by (cases r)
    (simp_all add: onStartShouldSetPanResponderCapture_def onStartShouldSetPanResponder_def
      onMoveShouldSetPanResponder_def onMoveShouldSetPanResponderCapture_def
      onDragStart_def releaseSettle_def reset_def Let_def)

theorem latch_gates_capture_witness:
  "reorderingRef (draggingState\<lparr>reorderingRef := True\<rparr>) \<and>
   \<not> onMoveShouldSetPanResponder (draggingState\<lparr>reorderingRef := True\<rparr>) \<and>
   activeKey (onDragStart idKey sampleData ''e'' 4
     (draggingState\<lparr>reorderingRef := True\<rparr>)) = Some ''e'' \<and>
   \<not> onMoveShouldSetPanResponder (onDragStart idKey sampleData ''e'' 4
     (draggingState\<lparr>reorderingRef := True\<rparr>))"
proof -
  have h: "reorderingRef (draggingState\<lparr>reorderingRef := True\<rparr>)" by simp
  show ?thesis
    using h latch_gates_capture [OF h, of idKey sampleData "''e''" 4 Fulfilled]
    by (simp add: idKey_def sampleData_def)
qed

subsection \<open>The container's frame\<close>

lemma move_flatWrapLayout:
  "flatWrapLayout (fst (onPanResponderMove P g s)) = flatWrapLayout s"
  by (simp add: onPanResponderMove_def Let_def split: option.splits)

lemma handle_flatWrapLayout:
  assumes "\<forall>w h px py. e \<noteq> LayoutMeasured w h px py"
    and "\<forall>px py. e \<noteq> GrantMeasured px py"
  shows "flatWrapLayout (fst (handle P e s)) = flatWrapLayout s"
  using assms
  by (cases e)
    (simp_all add: onPanResponderGrant_def move_flatWrapLayout releaseBegin_def
      releaseSettle_def reset_def onDragStart_def onDragEnd_def onDragScroll_def
      onDragLayout_def onCellLayout_def dataEffect_def reorderEffect_def Let_def
      split: settlement.splits)

text \<open>
  C9. The callback of the grant's measurement writes \<open>pos\<close> and nothing else: the
  \<open>extent\<close> of the container's frame, and every other ref, is as before. Of all the
  events the component handles, only the callback of the container-layout measurement
  can change \<open>extent\<close>.
\<close>

theorem grant_measure_keeps_extent:
  "extent (flatWrapLayout (grantMeasured P pageX pageY s)) = extent (flatWrapLayout s) \<and>
   pos (flatWrapLayout (grantMeasured P pageX pageY s)) = (if horizontal P then pageX else pageY) \<and>
   (grantMeasured P pageX pageY s)\<lparr>flatWrapLayout := flatWrapLayout s\<rparr> = s \<and>
   (\<forall>e. extent (flatWrapLayout (fst (handle P e s))) \<noteq> extent (flatWrapLayout s) \<longrightarrow>
        (\<exists>w h px py. e = LayoutMeasured w h px py))"
proof -
  have "extent (flatWrapLayout (fst (handle P e s))) = extent (flatWrapLayout s)"
    if "\<forall>w h px py. e \<noteq> LayoutMeasured w h px py" for e
  proof (cases "\<exists>px py. e = GrantMeasured px py")
    case True
    then show ?thesis by (auto simp add: grantMeasured_def)
  next
    case False
    with that show ?thesis by (simp add: handle_flatWrapLayout)
  qed
  then have "\<forall>e. extent (flatWrapLayout (fst (handle P e s))) \<noteq> extent (flatWrapLayout s) \<longrightarrow>
        (\<exists>w h px py. e = LayoutMeasured w h px py)"
    by blast
  then show ?thesis by (simp add: grantMeasured_def)
qed

theorem grant_measure_keeps_extent_witness:
  "extent (flatWrapLayout (grantMeasured sampleProps 10 20 draggingState)) = 200 \<and>
   pos (flatWrapLayout (grantMeasured sampleProps 10 20 draggingState)) = 20 \<and>
   extent (flatWrapLayout (fst (handle sampleProps (LayoutMeasured 300 600 0 40) draggingState)))
     \<noteq> extent (flatWrapLayout draggingState) \<and>
   (\<exists>w h px py. (LayoutMeasured 300 600 0 40 :: key event) = LayoutMeasured w h px py)"
proof -
  have changed: "extent (flatWrapLayout (fst (handle sampleProps (LayoutMeasured 300 600 0 40)
      draggingState))) \<noteq> extent (flatWrapLayout draggingState)"
    by (simp add: layoutMeasured_def sampleProps_def draggingState_def)
  from grant_measure_keeps_extent [of sampleProps 10 20 draggingState]
  have "extent (flatWrapLayout (grantMeasured sampleProps 10 20 draggingState)) = 200"
    and "pos (flatWrapLayout (grantMeasured sampleProps 10 20 draggingState)) = 20"
    and "\<forall>e. extent (flatWrapLayout (fst (handle sampleProps e draggingState)))
           \<noteq> extent (flatWrapLayout draggingState) \<longrightarrow>
         (\<exists>w h px py. e = LayoutMeasured w h px py)"
    by (simp_all add: sampleProps_def draggingState_def)
  with changed show ?thesis by blast
qed

subsection \<open>Displacement of the other cells\<close>



text \<open>
  On the first render both effects run, the second with \<^verbatim>\<open>isOffset\<close> still false: a cell
  that mounts inside the displaced range starts its slide and is sent back to 0 at once,
  until a dependency of the first effect changes.
\<close>

lemma cellMount_displaced:
  assumes "aKey = Some ak" and "ak \<noteq> []" and "k \<noteq> ak" and "lay ak = Some le"
    and "pIndex \<le> int index" and "int index \<le> aIndex"
  shows "cellMount aKey aIndex pIndex lay k index =
           (\<lparr>isOffset = True, animGoal = 0\<rparr>, [AnimTiming (extent le), AnimTiming 0])"
  using assms
  by (simp add: cellMount_def displaceEffect_def restEffect_def applyCalls_def)










subsection \<open>Scrolling of the list during a drag\<close>

lemma move_activeKey: "activeKey (fst (onPanResponderMove P g s)) = activeKey s"
  by (simp add: onPanResponderMove_def Let_def split: option.splits)

text \<open>
  C10, as stated: whenever activeKey is non-null the list's \<^verbatim>\<open>scrollEnabled\<close> is false.
  A drag started on an item whose key is the empty string sets activeKey to that key,
  which \<^verbatim>\<open>!activeKey.current\<close> takes for no key; and a \<^verbatim>\<open>scrollEnabled\<close> prop of the caller
  is spread after the component's own and replaces it.
\<close>

theorem scrollEnabled_counterexample:
  "activeKey (onDragStart idKey ['''', ''b''] '''' 0 (initialState ['''', ''b''] True)) \<noteq> None \<and>
   scrollEnabled None (onDragStart idKey ['''', ''b''] '''' 0 (initialState ['''', ''b''] True)) \<and>
   activeKey draggingState \<noteq> None \<and>
   scrollEnabled (Some True) draggingState"
  by (simp add: onDragStart_def idKey_def initialState_def scrollEnabled_def truthy_def
      draggingState_def)

text \<open>
  C10, amended: when the caller passes no \<^verbatim>\<open>scrollEnabled\<close> of its own, the list's
  \<^verbatim>\<open>scrollEnabled\<close> at a render is false exactly when activeKey is a non-empty string; a
  \<^verbatim>\<open>scrollEnabled\<close> the caller passes is used as it is. After \<^verbatim>\<open>reset\<close> the prop is true
  again, and an event turns it from false to true only by setting activeKey back to null
  or by a drag start on an item whose key is the empty string.
\<close>

theorem scrollEnabled_tracks_activeKey:
  "scrollEnabled None s = (activeKey s = None \<or> activeKey s = Some []) \<and>
   scrollEnabled (Some b) s = b \<and>
   scrollEnabled None (reset s) \<and>
   (\<forall>e. \<not> scrollEnabled None s \<and> scrollEnabled None (fst (handle P e s)) \<longrightarrow>
        activeKey (fst (handle P e s)) = None \<or>
        (\<exists>d item index. e = DragStart d item index \<and> keyExtractor P item index = []))"
proof -
  have shape: "scrollEnabled None u = (activeKey u = None \<or> activeKey u = Some [])"
    for u :: "'a dragState"
    by (simp add: scrollEnabled_def truthy_def split: option.splits)
  have step: "activeKey (fst (handle P e s)) = None \<or>
      (\<exists>d item index. e = DragStart d item index \<and> keyExtractor P item index = [])"
    if "\<not> scrollEnabled None s" and "scrollEnabled None (fst (handle P e s))" for e
    using that unfolding shape
    by (cases e)
      (auto simp add: onPanResponderGrant_def grantMeasured_def move_activeKey
        releaseBegin_def releaseSettle_def reset_def onDragStart_def onDragEnd_def
        onDragScroll_def onDragLayout_def layoutMeasured_def onCellLayout_def
        dataEffect_def reorderEffect_def Let_def
        split: settlement.splits if_splits)
  have given: "scrollEnabled (Some b) s = b"
    by (simp add: scrollEnabled_def)
  have cleared: "scrollEnabled None (reset s)"
    by (simp add: shape reset_def)
  from step have "\<forall>e. \<not> scrollEnabled None s \<and> scrollEnabled None (fst (handle P e s)) \<longrightarrow>
        activeKey (fst (handle P e s)) = None \<or>
        (\<exists>d item index. e = DragStart d item index \<and> keyExtractor P item index = [])"
    by blast
  with shape [of s] given cleared show ?thesis by blast
qed

theorem scrollEnabled_tracks_activeKey_witness:
  "\<not> scrollEnabled None (draggingState\<lparr>panGrantedRef := False\<rparr>) \<and>
   scrollEnabled None (fst (handle sampleProps DragEnd (draggingState\<lparr>panGrantedRef := False\<rparr>))) \<and>
   activeKey (fst (handle sampleProps DragEnd (draggingState\<lparr>panGrantedRef := False\<rparr>))) = None"
proof -
  let ?s = "draggingState\<lparr>panGrantedRef := False\<rparr>"
  have before: "\<not> scrollEnabled None ?s"
    by (simp add: scrollEnabled_def truthy_def draggingState_def)
  have after: "scrollEnabled None (fst (handle sampleProps DragEnd ?s))"
    by (simp add: scrollEnabled_def truthy_def onDragEnd_def reset_def draggingState_def)
  have other: "\<not> (\<exists>d item index. (DragEnd :: key event) = DragStart d item index \<and>
      keyExtractor sampleProps item index = [])"
    by simp
  from scrollEnabled_tracks_activeKey [of ?s True sampleProps]
  have "\<forall>e. \<not> scrollEnabled None ?s \<and> scrollEnabled None (fst (handle sampleProps e ?s)) \<longrightarrow>
        activeKey (fst (handle sampleProps e ?s)) = None \<or>
        (\<exists>d item index. e = DragStart d item index \<and> keyExtractor sampleProps item index = [])"
    by blast
  with before after other show ?thesis by blast
qed

end
